theory Spec2Isabelle
  imports Main
begin

section \<open>Python values and strings\<close>

text \<open>
  Text is Python 3 \<open>str\<close>. A character of the model is one code point below 256
  (the Latin-1 range); \<open>isspace\<close>, \<open>lower\<close> and the regular-expression classes
  \<open>\s\<close>, \<open>\d\<close> and \<open>.\<close> are Python's, restricted to that range. Lines are
  taken after \<open>line.decode('utf-8')\<close> has succeeded.
\<close>

datatype pyval = PyNone | PyInt int | PyStr string

text \<open>
  On these three kinds of value Python's \<open>==\<close> is equality of the model: an \<open>int\<close>
  never equals a \<open>str\<close>, whatever digits the string holds.
\<close>

definition newline :: char where
  "newline = CHR 0x0A"

definition isspace :: "char \<Rightarrow> bool" where
  "isspace c = (let n = (of_char c :: nat)
                in (9 \<le> n \<and> n \<le> 13) \<or> (28 \<le> n \<and> n \<le> 32) \<or> n = 133 \<or> n = 160)"

definition isdigit :: "char \<Rightarrow> bool" where
  "isdigit c = (let n = (of_char c :: nat) in 48 \<le> n \<and> n \<le> 57)"

definition digit_value :: "char \<Rightarrow> nat" where
  "digit_value c = of_char c - 48"

definition strip :: "string \<Rightarrow> string" where
  "strip s = rev (dropWhile isspace (rev (dropWhile isspace s)))"

definition lower_char :: "char \<Rightarrow> char" where
  "lower_char c = (let n = (of_char c :: nat)
                   in if (65 \<le> n \<and> n \<le> 90) \<or> (192 \<le> n \<and> n \<le> 222 \<and> n \<noteq> 215)
                      then char_of (n + 32) else c)"

definition lower :: "string \<Rightarrow> string" where
  "lower s = map lower_char s"

definition startswith :: "string \<Rightarrow> string \<Rightarrow> bool" where
  "startswith s p = (take (length p) s = p)"


subsection \<open>\<open>int(text)\<close>\<close>

text \<open>
  \<open>int\<close> skips the whitespace it knows on both sides (tab to carriage return, space,
  U+0085 and U+00A0; not the separators U+001C to U+001F), takes one optional sign and
  then decimal digits, where single underscores may stand between two digits. Anything
  else raises \<open>ValueError\<close>, the \<open>None\<close> of the model.
\<close>

definition int_space :: "char \<Rightarrow> bool" where
  "int_space c = (let n = (of_char c :: nat)
                  in (9 \<le> n \<and> n \<le> 13) \<or> n = 32 \<or> n = 133 \<or> n = 160)"

fun int_digits :: "nat \<Rightarrow> string \<Rightarrow> nat option" where
  "int_digits acc [] = Some acc"
| "int_digits acc [c] = (if isdigit c then Some (10 * acc + digit_value c) else None)"
| "int_digits acc (c # d # ds) =
     (if isdigit c then int_digits (10 * acc + digit_value c) (d # ds)
      else if c = CHR ''_'' \<and> isdigit d then int_digits (10 * acc + digit_value d) ds
      else None)"

definition int_magnitude :: "string \<Rightarrow> nat option" where
  "int_magnitude s = (case s of [] \<Rightarrow> None
                      | c # cs \<Rightarrow> if isdigit c then int_digits (digit_value c) cs else None)"

definition py_int :: "string \<Rightarrow> int option" where
  "py_int s =
     (let t = rev (dropWhile int_space (rev (dropWhile int_space s)))
      in case t of
           [] \<Rightarrow> None
         | c # cs \<Rightarrow>
             if c = CHR ''-'' then map_option (\<lambda>n. - int n) (int_magnitude cs)
             else if c = CHR ''+'' then map_option int (int_magnitude cs)
             else map_option int (int_magnitude t))"

subsection \<open>\<open>str(number)\<close>\<close>

fun str_nat :: "nat \<Rightarrow> string" where
  "str_nat n = (if n < 10 then [char_of (48 + n)]
                else str_nat (n div 10) @ [char_of (48 + n mod 10)])"

declare str_nat.simps [simp del]

definition str_int :: "int \<Rightarrow> string" where
  "str_int i = (if i < 0 then CHR ''-'' # str_nat (nat (- i)) else str_nat (nat i))"

definition py_str :: "pyval \<Rightarrow> string" where
  "py_str v = (case v of PyNone \<Rightarrow> ''None'' | PyInt i \<Rightarrow> str_int i | PyStr s \<Rightarrow> s)"

section \<open>FastAGI: the result line\<close>

text \<open>
  \<open>result_re = re.compile('\Aresult=(.*?)(?: (.*))?\Z')\<close>, used with \<open>match\<close>.
  The text must begin with \<open>result=\<close>. Neither group can hold a line feed, and together
  with the one space between them they must reach the end of the text, so a text with a
  line feed after \<open>result=\<close> does not match. The first group is lazy: it ends at the
  first space, and the second group is everything after that space; with no space the
  first group is the whole rest and the second group is absent.
\<close>

definition result_re_match :: "string \<Rightarrow> (string \<times> string option) option" where
  "result_re_match s =
     (if startswith s ''result='' \<and> newline \<notin> set (drop 7 s) then
        (let r = drop 7 s;
             g1 = takeWhile (\<lambda>c. c \<noteq> CHR '' '') r;
             t = dropWhile (\<lambda>c. c \<noteq> CHR '' '') r
         in Some (g1, case t of [] \<Rightarrow> None | _ # d \<Rightarrow> Some d))
      else None)"

text \<open>
  The exceptions and failures that occur: the two command failures of the package, the
  built-in exceptions the code can meet, Twisted's \<open>ConnectionDone\<close> and
  \<open>AlreadyCalledError\<close>, a failure handed in by the transport, and an exception
  raised by a function of the caller (named by the number of that function).
\<close>

datatype error =
    AGICommandFailure pyval string
  | AMICommandFailure "(string \<times> string) list"
  | ValueError
  | KeyError
  | AttributeError
  | RuntimeError
  | AlreadyCalledError
  | ConnectionDone string
  | OtherFailure string
  | RaisedBy nat

definition FAILURE_CODE :: int where
  "FAILURE_CODE = - 1"

text \<open>
  \<open>checkFailure(result, failure = -1)\<close>: \<open>int(match.group(1))\<close> is not guarded, so
  its \<open>ValueError\<close> leaves the function as it is.
\<close>

definition checkFailure :: "string \<Rightarrow> pyval \<Rightarrow> error + string" where
  "checkFailure result failure =
     (case result_re_match result of
        Some (g1, result_data) \<Rightarrow>
          (case py_int g1 of
             None \<Rightarrow> Inl ValueError
           | Some result_code \<Rightarrow>
               if PyInt result_code = failure
               then Inl (AGICommandFailure (PyInt FAILURE_CODE) result)
               else Inr result)
      | None \<Rightarrow> Inl (AGICommandFailure (PyInt FAILURE_CODE) result))"

text \<open>\<open>resultAsInt(result)\<close>: here \<open>ValueError\<close> is caught and turned into the fault.\<close>

definition resultAsInt :: "string \<Rightarrow> error + int" where
  "resultAsInt result =
     (case result_re_match result of
        Some (g1, result_data) \<Rightarrow>
          (case py_int g1 of
             Some n \<Rightarrow> Inr n
           | None \<Rightarrow> Inl (AGICommandFailure (PyInt FAILURE_CODE) result))
      | None \<Rightarrow> Inl (AGICommandFailure (PyInt FAILURE_CODE) result))"

subsection \<open>Operations that check a result line\<close>

text \<open>
  \<open>d.addCallback(f)\<close> on the Deferred of a reply: \<open>f\<close> runs on a success value, a
  fault passes through.
\<close>

definition addCallback :: "error + 'a \<Rightarrow> ('a \<Rightarrow> error + 'b) \<Rightarrow> error + 'b" where
  "addCallback d f = (case d of Inl e \<Rightarrow> Inl e | Inr v \<Rightarrow> f v)"

definition default_failure :: pyval where
  "default_failure = PyInt (- 1)"

definition quoted :: "string \<Rightarrow> string" where
  "quoted s = [CHR 0x22] @ s @ [CHR 0x22]"

fun join :: "string \<Rightarrow> string list \<Rightarrow> string" where
  "join sep [] = []"
| "join sep [x] = x"
| "join sep (x # y # ys) = x @ sep @ join sep (y # ys)"

text \<open>
  \<open>databaseDel\<close> and \<open>execute\<close>: the command line, and the callbacks added to the
  reply. Both hand \<open>checkFailure\<close> a sentinel that is a \<open>str\<close>.
\<close>

definition databaseDel_command :: "string \<Rightarrow> string \<Rightarrow> string" where
  "databaseDel_command family key = ''DATABASE DEL '' @ quoted family @ '' '' @ quoted key"

definition databaseDel_reply :: "string \<Rightarrow> error + int" where
  "databaseDel_reply data = addCallback (checkFailure data (PyStr ''0'')) resultAsInt"

definition execute_command :: "string \<Rightarrow> pyval list \<Rightarrow> bool \<Rightarrow> string" where
  "execute_command application options comma_delimiter =
     (let command = ''EXEC '' @ quoted application
      in if options \<noteq> [] then
           (let delimiter = (if comma_delimiter then '','' else ''|'')
            in command @ '' '' @ quoted (join delimiter (map py_str options)))
         else command)"

definition execute_reply :: "string \<Rightarrow> error + string" where
  "execute_reply data = checkFailure data (PyStr ''-2'')"

text \<open>\<open>answer\<close>, one of the operations that keep the default sentinel.\<close>

definition answer_reply :: "string \<Rightarrow> error + int" where
  "answer_reply data = addCallback (checkFailure data default_failure) resultAsInt"

subsection \<open>The grammar of the specification\<close>

text \<open>
  The result grammar in the specification's words: optional leading and trailing
  whitespace, the literal \<open>result=\<close>, a signed integer, then nothing or a single space
  and any payload.
\<close>

definition spec_signed_integer :: "string \<Rightarrow> bool" where
  "spec_signed_integer s =
     (let ds = (case s of [] \<Rightarrow> [] | c # cs \<Rightarrow> if c = CHR ''-'' \<or> c = CHR ''+'' then cs else s)
      in ds \<noteq> [] \<and> list_all isdigit ds)"

definition spec_result_grammar :: "string \<Rightarrow> bool" where
  "spec_result_grammar s =
     (let t = strip s
      in startswith t ''result='' \<and>
         spec_signed_integer (takeWhile (\<lambda>c. c \<noteq> CHR '' '') (drop 7 t)))"

section \<open>FastAGI: the protocol\<close>

subsection \<open>Dictionaries\<close>

text \<open>
  A \<open>dict\<close> is an association list with distinct keys, in insertion order: storing
  under a key that is present replaces the value where it stands.
\<close>

fun dict_set :: "('k \<times> 'v) list \<Rightarrow> 'k \<Rightarrow> 'v \<Rightarrow> ('k \<times> 'v) list" where
  "dict_set [] k v = [(k, v)]"
| "dict_set ((k', v') # kvs) k v =
     (if k' = k then (k, v) # kvs else (k', v') # dict_set kvs k v)"

definition dict_get :: "('k \<times> 'v) list \<Rightarrow> 'k \<Rightarrow> 'v option" where
  "dict_get d k = map_of d k"

definition dict_del :: "('k \<times> 'v) list \<Rightarrow> 'k \<Rightarrow> ('k \<times> 'v) list" where
  "dict_del d k = filter (\<lambda>kv. fst kv \<noteq> k) d"

subsection \<open>Lines from the server\<close>

text \<open>
  \<open>line_re = re.compile('^(\d{3})\s+(.*)$')\<close>. After three digits, \<open>\s+\<close> takes
  the longest run of whitespace and gives characters back one at a time; \<open>(.*)\<close> then
  runs to the next line feed, and \<open>$\<close> holds at the end of the text or before a line
  feed that ends it. \<open>line_re_try r k\<close> tries \<open>k\<close> whitespace characters, then fewer.
\<close>

definition at_line_end :: "string \<Rightarrow> bool" where
  "at_line_end t = (t = [] \<or> t = [newline])"

fun line_re_try :: "string \<Rightarrow> nat \<Rightarrow> string option" where
  "line_re_try r 0 = None"
| "line_re_try r (Suc k) =
     (let t = drop (Suc k) r
      in if at_line_end (dropWhile (\<lambda>c. c \<noteq> newline) t)
         then Some (takeWhile (\<lambda>c. c \<noteq> newline) t)
         else line_re_try r k)"

definition line_re_match :: "string \<Rightarrow> (string \<times> string) option" where
  "line_re_match line =
     (case line of
        a # b # c # r \<Rightarrow>
          if isdigit a \<and> isdigit b \<and> isdigit c
          then map_option (\<lambda>data. ([a, b, c], data))
                 (line_re_try r (length (takeWhile isspace r)))
          else None
      | _ \<Rightarrow> None)"

text \<open>
  \<open>agi_variable_re = re.compile('^(agi_.*): (.*)$')\<close>. The first group is greedy:
  \<open>agi_variable_try line j\<close> tries \<open>j\<close> characters after \<open>agi_\<close>, then fewer, and
  needs a colon and a space after them.
\<close>

fun agi_variable_try :: "string \<Rightarrow> nat \<Rightarrow> (string \<times> string) option" where
  "agi_variable_try line j =
     (let t = drop (4 + j) line
      in if take 2 t = '': '' \<and> at_line_end (dropWhile (\<lambda>c. c \<noteq> newline) (drop 2 t))
         then Some (take (4 + j) line, takeWhile (\<lambda>c. c \<noteq> newline) (drop 2 t))
         else (case j of 0 \<Rightarrow> None | Suc j' \<Rightarrow> agi_variable_try line j'))"

declare agi_variable_try.simps [simp del]

definition agi_variable_re_match :: "string \<Rightarrow> (string \<times> string) option" where
  "agi_variable_re_match line =
     (if startswith line ''agi_''
      then agi_variable_try line (length (takeWhile (\<lambda>c. c \<noteq> newline) (drop 4 line)))
      else None)"

subsection \<open>State of a connection\<close>

text \<open>
  A \<open>Deferred\<close> is the number it was created under; \<open>fired\<close> lists, in order, each
  Deferred the protocol has resolved and with what. The callbacks that callers attach
  to a Deferred, and the \<open>on_connect\<close> hook, run outside the protocol: the model
  records that they were reached (\<open>fired\<close>, \<open>on_connect_calls\<close>) and no more.
  Only the protocol fires the Deferreds it makes, and it takes each out of the queue
  before firing it.
  \<open>sent_lines\<close> is the transport, \<open>logged\<close> the warnings and errors written.
\<close>

datatype outcome = Callback string | Errback error

record fastagi =
  on_connect :: bool
  variables :: "(string \<times> string) list"
  pendingMessages :: "nat list"
  reading_variables :: bool
  lostConnectionDeferred :: "nat option"
  deferred_count :: nat
  fired :: "(nat \<times> outcome) list"
  sent_lines :: "string list"
  logged :: "string list"
  on_connect_calls :: nat

definition FastAGIProtocol :: "bool \<Rightarrow> fastagi" where
  "FastAGIProtocol hook =
     \<lparr> on_connect = hook, variables = [], pendingMessages = [], reading_variables = False,
       lostConnectionDeferred = None, deferred_count = 0, fired = [], sent_lines = [],
       logged = [], on_connect_calls = 0 \<rparr>"

definition callback :: "fastagi \<Rightarrow> nat \<Rightarrow> string \<Rightarrow> fastagi" where
  "callback s df v = s\<lparr>fired := fired s @ [(df, Callback v)]\<rparr>"

definition errback :: "fastagi \<Rightarrow> nat \<Rightarrow> error \<Rightarrow> fastagi" where
  "errback s df e = s\<lparr>fired := fired s @ [(df, Errback e)]\<rparr>"

definition connectionMade :: "fastagi \<Rightarrow> fastagi" where
  "connectionMade s = s\<lparr>reading_variables := True\<rparr>"

definition connectionLost :: "fastagi \<Rightarrow> error \<Rightarrow> fastagi" where
  "connectionLost s reason =
     (let s1 = foldl (\<lambda>t df. errback t df (ConnectionDone ''FastAGI connection lost''))
                 s (pendingMessages s);
          s2 = (case lostConnectionDeferred s1 of
                  Some d \<Rightarrow> errback s1 d reason
                | None \<Rightarrow> s1)
      in s2\<lparr>pendingMessages := []\<rparr>)"

definition onClose :: "fastagi \<Rightarrow> nat \<times> fastagi" where
  "onClose s =
     (case lostConnectionDeferred s of
        None \<Rightarrow> (deferred_count s,
                 s\<lparr>lostConnectionDeferred := Some (deferred_count s),
                   deferred_count := Suc (deferred_count s)\<rparr>)
      | Some d \<Rightarrow> (d, s))"

definition lineReceived :: "fastagi \<Rightarrow> string \<Rightarrow> fastagi" where
  "lineReceived s line =
     (if reading_variables s then
        (if line = [] then
           (let s1 = s\<lparr>reading_variables := False\<rparr>
            in if on_connect s1 then s1\<lparr>on_connect_calls := Suc (on_connect_calls s1)\<rparr>
               else s1)
         else
           (case agi_variable_re_match line of
              None \<Rightarrow> s\<lparr>logged := logged s @ [''Invalid variable line: '' @ line]\<rparr>
            | Some (key, val) \<Rightarrow> s\<lparr>variables := dict_set (variables s) key val\<rparr>))
      else
        (case line_re_match line of
           None \<Rightarrow> s\<lparr>logged := logged s @ [''Unexpected line: '' @ line]\<rparr>
         | Some (code, data) \<Rightarrow>
             (case pendingMessages s of
                [] \<Rightarrow> s\<lparr>logged := logged s @
                         [''Line received without pending deferred: '' @ line]\<rparr>
              | df # rest \<Rightarrow>
                  (let s1 = s\<lparr>pendingMessages := rest\<rparr>
                   in if code = ''200'' then callback s1 df data
                      else errback s1 df (AGICommandFailure (PyStr code) data)))))"

definition sendCommand :: "fastagi \<Rightarrow> string \<Rightarrow> nat \<times> fastagi" where
  "sendCommand s commandString =
     (let df = deferred_count s
      in (df, s\<lparr>deferred_count := Suc df,
                pendingMessages := pendingMessages s @ [df],
                sent_lines := sent_lines s @ [commandString]\<rparr>))"

text \<open>Several commands sent one after another, and several lines received.\<close>

fun sendCommands :: "fastagi \<Rightarrow> string list \<Rightarrow> nat list \<times> fastagi" where
  "sendCommands s [] = ([], s)"
| "sendCommands s (c # cs) =
     (let (df, s1) = sendCommand s c; (dfs, s2) = sendCommands s1 cs in (df # dfs, s2))"

definition linesReceived :: "fastagi \<Rightarrow> string list \<Rightarrow> fastagi" where
  "linesReceived s ls = foldl lineReceived s ls"

text \<open>
  What a reply line with the given code and data brings to the Deferred it resolves:
  the branch \<open>if code == '200'\<close> of \<open>lineReceived\<close>.
\<close>

definition code_outcome :: "string \<times> string \<Rightarrow> outcome" where
  "code_outcome p = (case p of (code, data) \<Rightarrow>
      if code = ''200'' then Callback data
      else Errback (AGICommandFailure (PyStr code) data))"

subsection \<open>Operations with a time argument\<close>

text \<open>
  Each operation builds its command line and hands it to \<open>sendCommand\<close>; the
  Deferred it returns is the one of \<open>sendCommand\<close>, with callbacks added that the
  properties below do not concern. Numbers given by the caller are Python \<open>int\<close>
  here: a \<open>float\<close> argument, such as the default \<open>2.0\<close> of \<open>getData\<close>, is
  outside the model. An argument that may be \<open>None\<close> is an option.
\<close>

definition getData :: "fastagi \<Rightarrow> string \<Rightarrow> int \<Rightarrow> int option \<Rightarrow> nat \<times> fastagi" where
  "getData s filename timeout maxDigits =
     (let timeout = timeout * 1000;
          command = ''GET DATA '' @ quoted filename @ '' '' @ str_int timeout;
          command = (case maxDigits of None \<Rightarrow> command
                     | Some m \<Rightarrow> command @ '' '' @ str_int m)
      in sendCommand s command)"







section \<open>InSequence\<close>

text \<open>
  An action is the call \<open>function(*args, **kwargs)\<close> that \<open>append\<close> stored. It
  runs in a world \<open>'w\<close> that it may change, and ends in a result or in a failure:
  \<open>maybeDeferred\<close> makes no difference between a function that raises, one that
  returns a value and one whose Deferred fires later, and the callbacks of one action
  run before the next action is taken. The final Deferred receives the list of results,
  or the failure with the list attached as \<open>reason.results\<close>.
\<close>

datatype ('r, 'e) final = FinalCallback "'r list" | FinalErrback 'e "'r list"

record ('w, 'r, 'e) InSequence =
  actions :: "('w \<Rightarrow> ('e + 'r) \<times> 'w) list"
  results :: "'r list"

definition InSequence_init :: "('w, 'r, 'e) InSequence" where
  "InSequence_init = \<lparr> actions = [], results = [] \<rparr>"

definition append_action ::
  "('w, 'r, 'e) InSequence \<Rightarrow> ('w \<Rightarrow> ('e + 'r) \<times> 'w) \<Rightarrow> ('w, 'r, 'e) InSequence" where
  "append_action seq f = seq\<lparr>actions := actions seq @ [f]\<rparr>"

definition recordResult :: "('w, 'r, 'e) InSequence \<Rightarrow> 'r \<Rightarrow> ('w, 'r, 'e) InSequence" where
  "recordResult seq r = seq\<lparr>results := results seq @ [r]\<rparr>"

definition onActionFailure :: "('w, 'r, 'e) InSequence \<Rightarrow> 'e \<Rightarrow> ('r, 'e) final" where
  "onActionFailure seq reason = FinalErrback reason (results seq)"

function onActionSuccess ::
  "('w, 'r, 'e) InSequence \<Rightarrow> 'w \<Rightarrow> ('r, 'e) final \<times> ('w, 'r, 'e) InSequence \<times> 'w" where
  "onActionSuccess seq w =
     (case actions seq of
        [] \<Rightarrow> (FinalCallback (results seq), seq, w)
      | f # rest \<Rightarrow>
          (case f w of
             (Inr r, w') \<Rightarrow> onActionSuccess (recordResult (seq\<lparr>actions := rest\<rparr>) r) w'
           | (Inl reason, w') \<Rightarrow>
               (onActionFailure (seq\<lparr>actions := rest\<rparr>) reason, seq\<lparr>actions := rest\<rparr>, w')))"
  by pat_completeness auto
termination
  by (relation "measure (\<lambda>(seq, w). length (actions seq))") (auto simp: recordResult_def)

declare onActionSuccess.simps [simp del]

definition doSequence ::
  "('w, 'r, 'e) InSequence \<Rightarrow> 'w \<Rightarrow> ('r, 'e) final \<times> ('w, 'r, 'e) InSequence \<times> 'w" where
  "doSequence seq w = onActionSuccess seq w"

text \<open>
  The specification's reading of a run without failure: each action in turn succeeds,
  in the world the one before it left.
\<close>

fun all_succeed :: "'w \<Rightarrow> ('w \<Rightarrow> ('e + 'r) \<times> 'w) list \<Rightarrow> ('r list \<times> 'w) option" where
  "all_succeed w [] = Some ([], w)"
| "all_succeed w (f # fs) =
     (case f w of
        (Inr r, w') \<Rightarrow> map_option (\<lambda>(rs, w''). (r # rs, w'')) (all_succeed w' fs)
      | (Inl e, w') \<Rightarrow> None)"

text \<open>Two actions for the examples: each writes its name into the world.\<close>

definition act_ok :: "string \<Rightarrow> string list \<Rightarrow> (string + string) \<times> string list" where
  "act_ok name w = (Inr (''r-'' @ name), w @ [name])"

definition act_fail :: "string \<Rightarrow> string list \<Rightarrow> (string + string) \<times> string list" where
  "act_fail name w = (Inl (''e-'' @ name), w @ [name])"

section \<open>The manager protocol\<close>

text \<open>
  Functions of \<open>AMIProtocol\<close> whose names \<open>FastAGIProtocol\<close> has too carry the
  prefix \<open>ami_\<close>. Dictionaries iterate as in Python 3: in insertion order, over the
  dictionary itself and not a copy.
\<close>

type_synonym message = "(string \<times> string) list"

text \<open>
  What a function stored in \<open>actionIDCallbacks\<close> is called with: a message, or
  the \<open>ConnectionDone\<close> object that \<open>connectionLost\<close> makes.
\<close>

datatype payload = Message message | ConnectionDoneObject string

text \<open>
  What the Deferred of a request is fired with: \<open>df.callback\<close> of a payload
  (\<open>sendDeferred\<close>), \<open>df.callback(cache)\<close> or \<open>df.errback\<close> of a failure
  (\<open>collectDeferred\<close>).
\<close>

datatype fire = FireCallback payload | FireCallbackList "message list" | FireErrback error

text \<open>
  The functions that stand in \<open>actionIDCallbacks\<close>: \<open>df.callback\<close> of the
  Deferred made by \<open>sendDeferred\<close>; the closure \<open>onEvent\<close> of
  \<open>collectDeferred\<close>, with its Deferred and its \<open>stopEvent\<close>; or a function of
  the caller given to \<open>sendMessage\<close>, known by a number and by whether it
  raises. A function of the caller is taken to leave the protocol as it is. An event
  handler is a function of the caller as well.
\<close>

datatype callable =
    DeferredCallback nat
  | OnEvent nat string
  | External nat bool

datatype handler = Handler nat bool

text \<open>
  A Deferred of the protocol: what it was fired with, if it was; the \<open>actionid\<close>
  its callbacks \<open>checkErrorResponse\<close> and \<open>cleanup\<close> were added with; the
  function registered with \<open>registerError\<close>, by number; the \<open>cache\<close> of
  \<open>collectDeferred\<close>.
\<close>

record deferred =
  called :: "fire option"
  callbackArgs :: pyval
  errorRespCallback :: "nat option"
  cache :: "message list"

definition new_deferred :: deferred where
  "new_deferred = \<lparr> called = None, callbackArgs = PyNone, errorRespCallback = None, cache = [] \<rparr>"

text \<open>A message given to \<open>sendMessage\<close> is an object of the caller, a list or a dict.\<close>

datatype pyobj = PyList "(string \<times> pyval) list" | PyDict "(string \<times> pyval) list"

text \<open>
  The protocol object, with the world around it: \<open>heap\<close> holds the caller's message
  objects by address, \<open>deferreds\<close> the Deferreds made so far, \<open>ami_sent\<close> the lines
  written to the transport, \<open>reached\<close> the calls to functions of the caller in
  order, \<open>ami_logged\<close> the warnings and errors.
\<close>

record ami =
  count :: nat
  ami_id :: string
  amiVersion :: "string option"
  messageCache :: "string list"
  actionIDCallbacks :: "(pyval \<times> callable) list"
  eventTypeCallbacks :: "(string option \<times> handler list) list"
  heap :: "nat \<Rightarrow> pyobj"
  deferreds :: "nat \<Rightarrow> deferred"
  ami_deferred_count :: nat
  ami_sent :: "string list"
  reached :: "(nat \<times> payload) list"
  ami_logged :: "string list"

definition AMIProtocol :: "string \<Rightarrow> (nat \<Rightarrow> pyobj) \<Rightarrow> ami" where
  "AMIProtocol uuid h =
     \<lparr> count = 0, ami_id = uuid, amiVersion = None, messageCache = [],
       actionIDCallbacks = [], eventTypeCallbacks = [], heap = h,
       deferreds = (\<lambda>_. new_deferred), ami_deferred_count = 0, ami_sent = [],
       reached = [], ami_logged = [] \<rparr>"

subsection \<open>Event handlers\<close>

text \<open>
  \<open>registerEvent(event, function)\<close>: \<open>event\<close> is a name, \<open>None\<close>, or a tuple
  of those.
\<close>

datatype event_arg = OneEvent "string option" | EventTuple "string option list"

definition event_keys :: "event_arg \<Rightarrow> string option list" where
  "event_keys e = (case e of OneEvent k \<Rightarrow> [k] | EventTuple ks \<Rightarrow> ks)"

definition setdefault_append ::
  "(string option \<times> handler list) list \<Rightarrow> handler \<Rightarrow> string option
     \<Rightarrow> (string option \<times> handler list) list" where
  "setdefault_append d f ev =
     (case dict_get d ev of
        None \<Rightarrow> d @ [(ev, [f])]
      | Some hs \<Rightarrow> dict_set d ev (hs @ [f]))"

definition registerEvent :: "ami \<Rightarrow> event_arg \<Rightarrow> handler \<Rightarrow> ami" where
  "registerEvent s event function =
     s\<lparr>eventTypeCallbacks :=
         foldl (\<lambda>d ev. setdefault_append d function ev) (eventTypeCallbacks s) (event_keys event)\<rparr>"









subsection \<open>Deferreds and the functions waiting for a response\<close>

definition cleanup :: "ami \<Rightarrow> pyval \<Rightarrow> ami" where
  "cleanup s actionid = s\<lparr>actionIDCallbacks := dict_del (actionIDCallbacks s) actionid\<rparr>"

text \<open>
  \<open>checkErrorResponse(result, actionid, df)\<close>. An exception of the registered
  function stays inside the Deferred.
\<close>

definition checkErrorResponse :: "ami \<Rightarrow> payload \<Rightarrow> pyval \<Rightarrow> nat \<Rightarrow> ami" where
  "checkErrorResponse s result actionid df =
     (let s1 = cleanup s actionid
      in case result of
           Message m \<Rightarrow>
             (case errorRespCallback (deferreds s1 df) of
                Some n \<Rightarrow>
                  if dict_get m ''response'' = Some ''Error''
                  then s1\<lparr>reached := reached s1 @ [(n, result)]\<rparr>
                  else s1
              | None \<Rightarrow> s1)
         | ConnectionDoneObject _ \<Rightarrow> s1)"

text \<open>
  Firing a Deferred runs the callbacks added by \<open>sendDeferred\<close> or
  \<open>collectDeferred\<close>; firing it again raises \<open>AlreadyCalledError\<close>.
\<close>

definition fire_deferred :: "ami \<Rightarrow> nat \<Rightarrow> fire \<Rightarrow> error option \<times> ami" where
  "fire_deferred s df v =
     (case called (deferreds s df) of
        Some _ \<Rightarrow> (Some AlreadyCalledError, s)
      | None \<Rightarrow>
          (let d = deferreds s df;
               s1 = s\<lparr>deferreds := (deferreds s)(df := d\<lparr>called := Some v\<rparr>)\<rparr>
           in (None,
               case v of
                 FireCallback result \<Rightarrow> checkErrorResponse s1 result (callbackArgs d) df
               | FireCallbackList _ \<Rightarrow> cleanup s1 (callbackArgs d)
               | FireErrback _ \<Rightarrow> cleanup s1 (callbackArgs d))))"

definition append_cache :: "ami \<Rightarrow> nat \<Rightarrow> message \<Rightarrow> ami" where
  "append_cache s df event =
     s\<lparr>deferreds := (deferreds s)(df := (deferreds s df)\<lparr>cache := cache (deferreds s df) @ [event]\<rparr>)\<rparr>"

text \<open>
  Calling a stored function. \<open>onEvent\<close> begins with \<open>event.get('response')\<close>:
  on the \<open>ConnectionDone\<close> object, which has no \<open>get\<close>, that is an
  \<open>AttributeError\<close>.
\<close>

definition call_callable :: "ami \<Rightarrow> callable \<Rightarrow> payload \<Rightarrow> error option \<times> ami" where
  "call_callable s f p =
     (case f of
        DeferredCallback df \<Rightarrow> fire_deferred s df (FireCallback p)
      | OnEvent df stopEvent \<Rightarrow>
          (case p of
             ConnectionDoneObject _ \<Rightarrow> (Some AttributeError, s)
           | Message event \<Rightarrow>
               if dict_get event ''response'' = Some ''Error''
               then fire_deferred s df (FireErrback (AMICommandFailure event))
               else if dict_get event ''event'' = Some stopEvent
               then (let s1 = append_cache s df event
                     in fire_deferred s1 df (FireCallbackList (cache (deferreds s1 df))))
               else (None, append_cache s df event))
      | External n raises \<Rightarrow>
          (if raises then Some (RaisedBy n) else None,
           s\<lparr>reached := reached s @ [(n, p)]\<rparr>))"

subsection \<open>Incoming lines\<close>














subsection \<open>Outgoing messages\<close>

definition generateActionId :: "ami \<Rightarrow> string \<times> ami" where
  "generateActionId s =
     (let s1 = s\<lparr>count := count s + 1\<rparr>
      in (ami_id s1 @ ''-'' @ str_nat (count s1), s1))"

definition send_lines :: "ami \<Rightarrow> (string \<times> pyval) list \<Rightarrow> ami" where
  "send_lines s items =
     s\<lparr>ami_sent := ami_sent s @ map (\<lambda>(key, val). lower key @ '': '' @ py_str val) items\<rparr>"

text \<open>
  The two places where \<open>sendMessage\<close> looks for a token of the caller: the loop over
  the pairs of a list, where the last \<open>actionid\<close> header wins, and the copy of a
  dict with lowered keys.
\<close>

definition list_actionid :: "(string \<times> pyval) list \<Rightarrow> pyval" where
  "list_actionid items =
     foldl (\<lambda>found (header, val). if lower header = ''actionid'' then val else found)
       PyNone items"

definition lower_keys :: "(string \<times> pyval) list \<Rightarrow> (string \<times> pyval) list" where
  "lower_keys items = foldl (\<lambda>d (k, v). dict_set d (lower k) v) [] items"

definition sendMessage :: "ami \<Rightarrow> nat \<Rightarrow> callable option \<Rightarrow> pyval \<times> ami" where
  "sendMessage s message responseCallback =
     (case heap s message of
        PyList items \<Rightarrow>
          (let actionid = list_actionid items;
               (actionid, s1) =
                 (if actionid = PyNone then
                    (let (actionid, t) = generateActionId s
                     in (PyStr actionid,
                         t\<lparr>heap := (heap t)(message :=
                              PyList (items @ [(''actionid'', PyStr actionid)]))\<rparr>))
                  else (actionid, s));
               s2 = (case responseCallback of
                       Some f \<Rightarrow> s1\<lparr>actionIDCallbacks := dict_set (actionIDCallbacks s1) actionid f\<rparr>
                     | None \<Rightarrow> s1);
               s3 = (case heap s2 message of
                       PyList items' \<Rightarrow> send_lines s2 items'
                     | PyDict items' \<Rightarrow> send_lines s2 items')
           in (actionid, s3\<lparr>ami_sent := ami_sent s3 @ [[]]\<rparr>))
      | PyDict items \<Rightarrow>
          (let copy = lower_keys items;
               (actionid, copy, s1) =
                 (case dict_get copy ''actionid'' of
                    None \<Rightarrow>
                      (let (actionid, t) = generateActionId s
                       in (PyStr actionid, dict_set copy ''actionid'' (PyStr actionid), t))
                  | Some v \<Rightarrow> (v, copy, s));
               s2 = (case responseCallback of
                       Some f \<Rightarrow> s1\<lparr>actionIDCallbacks := dict_set (actionIDCallbacks s1) actionid f\<rparr>
                     | None \<Rightarrow> s1);
               s3 = send_lines s2 copy
           in (actionid, s3\<lparr>ami_sent := ami_sent s3 @ [[]]\<rparr>)))"

text \<open>Tokens generated one after another on a connection.\<close>

fun generateActionIds :: "ami \<Rightarrow> nat \<Rightarrow> string list \<times> ami" where
  "generateActionIds s 0 = ([], s)"
| "generateActionIds s (Suc n) =
     (let (a, s1) = generateActionId s; (as, s2) = generateActionIds s1 n in (a # as, s2))"

text \<open>Messages sent one after another, with the tokens \<open>sendMessage\<close> returns.\<close>

fun sendMessages :: "ami \<Rightarrow> (nat \<times> callable option) list \<Rightarrow> pyval list \<times> ami" where
  "sendMessages s [] = ([], s)"
| "sendMessages s ((message, responseCallback) # ms) =
     (let (a, s1) = sendMessage s message responseCallback;
          (as, s2) = sendMessages s1 ms
      in (a # as, s2))"

text \<open>
  A heap for the examples: a list-form message at address 0, dict-form messages at all
  other addresses.
\<close>

definition ping_heap :: "nat \<Rightarrow> pyobj" where
  "ping_heap a = (if a = 0 then PyList [(''Action'', PyStr ''Ping'')]
                  else PyDict [(''Action'', PyStr ''Ping'')])"

definition make_deferred :: "ami \<Rightarrow> nat \<times> ami" where
  "make_deferred s =
     (ami_deferred_count s,
      s\<lparr>deferreds := (deferreds s)(ami_deferred_count s := new_deferred),
        ami_deferred_count := Suc (ami_deferred_count s)\<rparr>)"

definition set_callbackArgs :: "ami \<Rightarrow> nat \<Rightarrow> pyval \<Rightarrow> ami" where
  "set_callbackArgs s df actionid =
     s\<lparr>deferreds := (deferreds s)(df := (deferreds s df)\<lparr>callbackArgs := actionid\<rparr>)\<rparr>"

definition sendDeferred :: "ami \<Rightarrow> nat \<Rightarrow> nat \<times> ami" where
  "sendDeferred s message =
     (let (df, s1) = make_deferred s;
          (actionid, s2) = sendMessage s1 message (Some (DeferredCallback df))
      in (df, set_callbackArgs s2 df actionid))"

definition registerError :: "ami \<Rightarrow> nat \<Rightarrow> nat \<Rightarrow> ami" where
  "registerError s df function =
     s\<lparr>deferreds := (deferreds s)(df := (deferreds s df)\<lparr>errorRespCallback := Some function\<rparr>)\<rparr>"

definition collectDeferred :: "ami \<Rightarrow> nat \<Rightarrow> string \<Rightarrow> nat \<times> ami" where
  "collectDeferred s message stopEvent =
     (let (df, s1) = make_deferred s;
          (actionid, s2) = sendMessage s1 message (Some (OnEvent df stopEvent))
      in (df, set_callbackArgs s2 df actionid))"

subsection \<open>Loss of the connection\<close>

text \<open>
  \<open>for key, callable in self.actionIDCallbacks.items()\<close>: each step of the
  iteration first compares the size of the dictionary with its size when the iteration
  began and raises \<open>RuntimeError\<close> if it has changed, then ends if no entry is left.
  The \<open>try\<close> in the body of the loop does not cover that step.
\<close>

function items_loop :: "nat \<Rightarrow> nat \<Rightarrow> ami \<Rightarrow> error option \<times> ami" where
  "items_loop size0 pos s =
     (if length (actionIDCallbacks s) \<noteq> size0 then (Some RuntimeError, s)
      else if size0 \<le> pos then (None, s)
      else
        (case call_callable s (snd (actionIDCallbacks s ! pos))
                (ConnectionDoneObject ''Manager connection terminated'') of
           (None, t) \<Rightarrow> items_loop size0 (Suc pos) t
         | (Some err, t) \<Rightarrow>
             items_loop size0 (Suc pos)
               (t\<lparr>ami_logged := ami_logged t @ [''Failure during connectionLost for callable'']\<rparr>)))"
  by pat_completeness auto
termination
  by (relation "measure (\<lambda>(size0, pos, s). size0 - pos)") auto

declare items_loop.simps [simp del]

definition ami_connectionLost :: "ami \<Rightarrow> error option \<times> ami" where
  "ami_connectionLost s =
     (case items_loop (length (actionIDCallbacks s)) 0 s of
        (Some err, t) \<Rightarrow> (Some err, t)
      | (None, t) \<Rightarrow> (None, t\<lparr>actionIDCallbacks := [], eventTypeCallbacks := []\<rparr>))"

section \<open>Properties\<close>

subsection \<open>Replies resolve pending commands in the order sent\<close>

lemma sendCommands_effect:
  "sendCommands s cs = (dfs, s') \<Longrightarrow>
     dfs = [deferred_count s ..< deferred_count s + length cs] \<and>
     s' = s\<lparr>deferred_count := deferred_count s + length cs,
            pendingMessages := pendingMessages s @ dfs,
            sent_lines := sent_lines s @ cs\<rparr>"
proof (induction cs arbitrary: s dfs s')
  case Nil
  then show ?case by simp
next
  case (Cons c cs)
  obtain df s1 where one: "sendCommand s c = (df, s1)" by (cases "sendCommand s c")
  obtain dfs2 s2 where more: "sendCommands s1 cs = (dfs2, s2)" by (cases "sendCommands s1 cs")
  from one have df: "df = deferred_count s"
    and s1: "s1 = s\<lparr>deferred_count := Suc (deferred_count s),
                    pendingMessages := pendingMessages s @ [deferred_count s],
                    sent_lines := sent_lines s @ [c]\<rparr>"
    by (auto simp: sendCommand_def Let_def)
  from Cons.prems one more have res: "dfs = df # dfs2" "s' = s2" by auto
  from Cons.IH [OF more] s1
  have dfs2: "dfs2 = [Suc (deferred_count s) ..< Suc (deferred_count s) + length cs]"
    and s2: "s2 = s1\<lparr>deferred_count := deferred_count s1 + length cs,
            pendingMessages := pendingMessages s1 @ dfs2,
            sent_lines := sent_lines s1 @ cs\<rparr>"
    by simp_all
  have "dfs = [deferred_count s ..< deferred_count s + length (c # cs)]"
    using res df dfs2 by (simp add: upt_rec)
  moreover have "s' = s\<lparr>deferred_count := deferred_count s + length (c # cs),
            pendingMessages := pendingMessages s @ dfs,
            sent_lines := sent_lines s @ (c # cs)\<rparr>"
    using res s2 s1 df by simp
  ultimately show ?case by blast
qed

lemma lineReceived_reply:
  "\<not> reading_variables s \<Longrightarrow> pendingMessages s = df # rest \<Longrightarrow> line_re_match l = Some p \<Longrightarrow>
     lineReceived s l = s\<lparr>pendingMessages := rest, fired := fired s @ [(df, code_outcome p)]\<rparr>"
  by (cases p) (simp add: lineReceived_def callback_def errback_def code_outcome_def)

lemma linesReceived_replies:
  "\<not> reading_variables s \<Longrightarrow> pendingMessages s = dfs @ rest \<Longrightarrow>
   map line_re_match ls = map Some ps \<Longrightarrow> length dfs = length ps \<Longrightarrow>
     linesReceived s ls = s\<lparr>pendingMessages := rest, fired := fired s @ zip dfs (map code_outcome ps)\<rparr>"
proof (induction ls arbitrary: s dfs ps)
  case Nil
  then show ?case by (simp add: linesReceived_def)
next
  case (Cons l ls)
  from Cons.prems(3) obtain p ps' where ps: "ps = p # ps'" and l: "line_re_match l = Some p"
    and ls: "map line_re_match ls = map Some ps'"
    by (cases ps) auto
  from Cons.prems(4) ps obtain df dfs' where dfs: "dfs = df # dfs'" and len: "length dfs' = length ps'"
    by (cases dfs) auto
  let ?s1 = "s\<lparr>pendingMessages := dfs' @ rest, fired := fired s @ [(df, code_outcome p)]\<rparr>"
  have step: "lineReceived s l = ?s1"
    using lineReceived_reply [OF Cons.prems(1) _ l, of df "dfs' @ rest"] Cons.prems(2) dfs by simp
  have "linesReceived ?s1 ls =
          ?s1\<lparr>pendingMessages := rest, fired := fired ?s1 @ zip dfs' (map code_outcome ps')\<rparr>"
    by (rule Cons.IH [OF _ _ ls len]) (use Cons.prems(1) in simp_all)
  then show ?case using step ps dfs by (simp add: linesReceived_def)
qed

text \<open>
  Claim C1. On a connection that has read its variables and has nothing pending, let
  any number of commands be sent with \<open>sendCommand\<close> before a reply arrives, and let
  as many reply lines of the form code, whitespace, data arrive. Then the Deferreds
  made for the commands are resolved one for one in the order of sending, each by the
  reply at its position: with the data as success value when the code is \<open>200\<close>, with
  \<open>AGICommandFailure(code, data)\<close> for every other three-digit code; nothing stays
  pending.
\<close>

theorem fifo_replies:
  assumes "\<not> reading_variables s" and "pendingMessages s = []"
    and "sendCommands s cmds = (dfs, s1)"
    and "map line_re_match replies = map Some parsed" and "length replies = length cmds"
  shows "dfs = [deferred_count s ..< deferred_count s + length cmds]
       \<and> pendingMessages s1 = dfs
       \<and> fired (linesReceived s1 replies) = fired s @ zip dfs (map code_outcome parsed)
       \<and> pendingMessages (linesReceived s1 replies) = []"
proof -
  from sendCommands_effect [OF assms(3)]
  have dfs: "dfs = [deferred_count s ..< deferred_count s + length cmds]"
    and s1: "s1 = s\<lparr>deferred_count := deferred_count s + length cmds,
            pendingMessages := pendingMessages s @ dfs,
            sent_lines := sent_lines s @ cmds\<rparr>"
    by simp_all
  from s1 assms(1,2) have r: "\<not> reading_variables s1" and p: "pendingMessages s1 = dfs @ []"
    and f: "fired s1 = fired s"
    by simp_all
  have "length (map line_re_match replies) = length (map Some parsed)" using assms(4) by simp
  then have "length parsed = length cmds" using assms(5) by simp
  with dfs have len: "length dfs = length parsed" by simp
  from linesReceived_replies [OF r p assms(4) len] f p dfs
  show ?thesis by simp
qed

theorem fifo_replies_witness:
  "fired (linesReceived (snd (sendCommands (FastAGIProtocol False) [''ANSWER'', ''HANGUP'']))
            [''200 result=0'', ''510 Invalid or unknown command''])
     = [(0, Callback ''result=0''),
        (1, Errback (AGICommandFailure (PyStr ''510'') ''Invalid or unknown command''))]"
proof -
  have a: "\<not> reading_variables (FastAGIProtocol False)" by (simp add: FastAGIProtocol_def)
  have b: "pendingMessages (FastAGIProtocol False) = []" by (simp add: FastAGIProtocol_def)
  have c: "sendCommands (FastAGIProtocol False) [''ANSWER'', ''HANGUP'']
            = ([0, 1], snd (sendCommands (FastAGIProtocol False) [''ANSWER'', ''HANGUP'']))"
    by (simp add: sendCommand_def FastAGIProtocol_def)
  have d: "map line_re_match [''200 result=0'', ''510 Invalid or unknown command'']
            = map Some [(''200'', ''result=0''), (''510'', ''Invalid or unknown command'')]"
    by code_simp
  have e: "length [''200 result=0'', ''510 Invalid or unknown command''] = length [''ANSWER'', ''HANGUP'']"
    by simp
  have f: "fired (FastAGIProtocol False) = []" by (simp add: FastAGIProtocol_def)
  from fifo_replies [OF a b c d e] f show ?thesis by (simp add: code_outcome_def)
qed

subsection \<open>The result line\<close>

lemma startswith_iff: "startswith s p \<longleftrightarrow> (\<exists>r. s = p @ r)"
proof
  assume "startswith s p"
  then have "s = p @ drop (length p) s"
    unfolding startswith_def using append_take_drop_id [of "length p" s] by simp
  then show "\<exists>r. s = p @ r" ..
next
  assume "\<exists>r. s = p @ r"
  then show "startswith s p" unfolding startswith_def by auto
qed

lemma first_chunk_iff:
  "(\<exists>c p. (r = c \<or> r = c @ '' '' @ p) \<and> CHR '' '' \<notin> set c \<and> P c)
     \<longleftrightarrow> P (takeWhile (\<lambda>x. x \<noteq> CHR '' '') r)"
proof
  assume "\<exists>c p. (r = c \<or> r = c @ '' '' @ p) \<and> CHR '' '' \<notin> set c \<and> P c"
  then obtain c p where r: "r = c \<or> r = c @ '' '' @ p" and c: "CHR '' '' \<notin> set c" and P: "P c"
    by blast
  from c have all: "\<And>x. x \<in> set c \<Longrightarrow> x \<noteq> CHR '' ''" by blast
  from r have "takeWhile (\<lambda>x. x \<noteq> CHR '' '') r = c"
  proof
    assume "r = c" with all show ?thesis by (simp add: takeWhile_eq_all_conv)
  next
    assume "r = c @ '' '' @ p" with all show ?thesis by (simp add: takeWhile_append2)
  qed
  with P show "P (takeWhile (\<lambda>x. x \<noteq> CHR '' '') r)" by simp
next
  let ?c = "takeWhile (\<lambda>x. x \<noteq> CHR '' '') r"
  let ?t = "dropWhile (\<lambda>x. x \<noteq> CHR '' '') r"
  assume P: "P ?c"
  have nosp: "CHR '' '' \<notin> set ?c" by (auto dest: set_takeWhileD)
  have r: "r = ?c @ ?t" by simp
  have "r = ?c \<or> r = ?c @ '' '' @ tl ?t"
  proof (cases ?t)
    case Nil
    with r show ?thesis by simp
  next
    case (Cons x xs)
    then have "x = CHR '' ''" by (simp add: dropWhile_eq_Cons_conv)
    with Cons have "?t = '' '' @ tl ?t" by simp
    with r have "r = ?c @ '' '' @ tl ?t" by simp
    then show ?thesis ..
  qed
  with nosp P show "\<exists>c p. (r = c \<or> r = c @ '' '' @ p) \<and> CHR '' '' \<notin> set c \<and> P c"
    by blast
qed

lemma resultAsInt_Inr_iff:
  "resultAsInt s = Inr n \<longleftrightarrow>
     (\<exists>r. s = ''result='' @ r \<and> newline \<notin> set r \<and> py_int (takeWhile (\<lambda>x. x \<noteq> CHR '' '') r) = Some n)"
  unfolding resultAsInt_def result_re_match_def startswith_iff
  by (auto simp: Let_def split: option.splits)

lemma resultAsInt_cases:
  "(\<exists>n. resultAsInt s = Inr n) \<or> resultAsInt s = Inl (AGICommandFailure (PyInt FAILURE_CODE) s)"
  unfolding resultAsInt_def by (auto split: option.splits)

lemma checkFailure_Inr:
  "checkFailure s f = Inr r \<Longrightarrow> r = s \<and> (\<exists>n. resultAsInt s = Inr n)"
  unfolding checkFailure_def resultAsInt_def by (auto split: option.splits if_splits)

lemma result_shape_iff:
  "(\<exists>r. s = ''result='' @ r \<and>
        (\<exists>c p. (r = c \<or> r = c @ '' '' @ p) \<and> CHR '' '' \<notin> set c \<and> (newline \<notin> set r \<and> Q c)))
   \<longleftrightarrow> (\<exists>c p. (s = ''result='' @ c \<or> s = ''result='' @ c @ '' '' @ p) \<and>
              CHR '' '' \<notin> set c \<and> newline \<notin> set s \<and> Q c)"
  (is "?L \<longleftrightarrow> ?R")
proof
  assume ?L
  then obtain r c p where s: "s = ''result='' @ r" and r: "r = c \<or> r = c @ '' '' @ p"
    and c: "CHR '' '' \<notin> set c" and nl: "newline \<notin> set r" and Q: "Q c"
    by blast
  from s nl have nls: "newline \<notin> set s" by (simp add: newline_def)
  from s r have "s = ''result='' @ c \<or> s = ''result='' @ c @ '' '' @ p" by blast
  with c nls Q show ?R by blast
next
  assume ?R
  then obtain c p where s: "s = ''result='' @ c \<or> s = ''result='' @ c @ '' '' @ p"
    and c: "CHR '' '' \<notin> set c" and nl: "newline \<notin> set s" and Q: "Q c"
    by blast
  from s show ?L
  proof
    assume e: "s = ''result='' @ c"
    with nl have "newline \<notin> set c" by simp
    with e c Q show ?L by blast
  next
    assume e: "s = ''result='' @ c @ '' '' @ p"
    with nl have "newline \<notin> set (c @ '' '' @ p)" by simp
    with e c Q show ?L by blast
  qed
qed

text \<open>
  Claim C2, as the code has it. \<open>resultAsInt\<close> returns an integer exactly for the
  texts that begin with \<open>result=\<close> at their first character, hold no line feed, and
  whose first chunk (up to the first space, or to the end) is an integer for Python's
  \<open>int\<close>; after the chunk comes nothing, or one space and any payload. On every
  other text it raises \<open>AGICommandFailure(-1, text)\<close>. \<open>checkFailure\<close> returns
  a value, the text itself, only on texts that \<open>resultAsInt\<close> accepts. Whitespace
  before \<open>result=\<close> is not accepted.
\<close>

theorem result_parsers_grammar:
  "(resultAsInt s = Inr n \<longleftrightarrow>
      (\<exists>c p. (s = ''result='' @ c \<or> s = ''result='' @ c @ '' '' @ p) \<and>
              CHR '' '' \<notin> set c \<and> newline \<notin> set s \<and> py_int c = Some n))
   \<and> ((\<forall>m. resultAsInt s \<noteq> Inr m) \<longrightarrow>
        resultAsInt s = Inl (AGICommandFailure (PyInt FAILURE_CODE) s))
   \<and> (\<forall>f r. checkFailure s f = Inr r \<longrightarrow> r = s \<and> (\<exists>m. resultAsInt s = Inr m))"
proof (intro conjI)
  have "resultAsInt s = Inr n \<longleftrightarrow>
     (\<exists>r. s = ''result='' @ r \<and>
        (\<exists>c p. (r = c \<or> r = c @ '' '' @ p) \<and> CHR '' '' \<notin> set c \<and>
               (newline \<notin> set r \<and> py_int c = Some n)))"
    unfolding resultAsInt_Inr_iff
      first_chunk_iff [where P = "\<lambda>c. newline \<notin> set r \<and> py_int c = Some n" for r]
    by (rule refl)
  then show "resultAsInt s = Inr n \<longleftrightarrow>
      (\<exists>c p. (s = ''result='' @ c \<or> s = ''result='' @ c @ '' '' @ p) \<and>
              CHR '' '' \<notin> set c \<and> newline \<notin> set s \<and> py_int c = Some n)"
    unfolding result_shape_iff [where Q = "\<lambda>c. py_int c = Some n"] .
next
  show "(\<forall>m. resultAsInt s \<noteq> Inr m) \<longrightarrow>
        resultAsInt s = Inl (AGICommandFailure (PyInt FAILURE_CODE) s)"
    using resultAsInt_cases [of s] by blast
next
  show "\<forall>f r. checkFailure s f = Inr r \<longrightarrow> r = s \<and> (\<exists>m. resultAsInt s = Inr m)"
    using checkFailure_Inr by blast
qed

theorem result_parsers_grammar_witness:
  "resultAsInt ''result=5 (dtmf) endpos=1234'' = Inr 5 \<and>
   checkFailure ''result=5 (dtmf) endpos=1234'' (PyInt (- 1)) = Inr ''result=5 (dtmf) endpos=1234'' \<and>
   resultAsInt ''result=five'' = Inl (AGICommandFailure (PyInt FAILURE_CODE) ''result=five'')"
proof -
  have "\<exists>c p. (''result=5 (dtmf) endpos=1234'' = ''result='' @ c \<or>
               ''result=5 (dtmf) endpos=1234'' = ''result='' @ c @ '' '' @ p) \<and>
              CHR '' '' \<notin> set c \<and> newline \<notin> set ''result=5 (dtmf) endpos=1234'' \<and>
              py_int c = Some 5"
  proof (intro exI conjI)
    show "''result=5 (dtmf) endpos=1234'' = ''result='' @ ''5'' \<or>
          ''result=5 (dtmf) endpos=1234'' = ''result='' @ ''5'' @ '' '' @ ''(dtmf) endpos=1234''"
      by simp
    show "CHR '' '' \<notin> set ''5''" by simp
    show "newline \<notin> set ''result=5 (dtmf) endpos=1234''" by (simp add: newline_def)
    show "py_int ''5'' = Some 5" by code_simp
  qed
  then have a: "resultAsInt ''result=5 (dtmf) endpos=1234'' = Inr 5"
    using result_parsers_grammar [of "''result=5 (dtmf) endpos=1234''" 5] by blast
  have "checkFailure ''result=5 (dtmf) endpos=1234'' (PyInt (- 1)) = Inr ''result=5 (dtmf) endpos=1234''"
    by code_simp
  then have b: "checkFailure ''result=5 (dtmf) endpos=1234'' (PyInt (- 1)) = Inr ''result=5 (dtmf) endpos=1234''
      \<and> (\<exists>m. resultAsInt ''result=5 (dtmf) endpos=1234'' = Inr m)"
    using result_parsers_grammar [of "''result=5 (dtmf) endpos=1234''" 5] by blast
  have "resultAsInt ''result=five'' = Inl (AGICommandFailure (PyInt (- 1)) ''result=five'')"
    by code_simp
  then have "\<forall>m. resultAsInt ''result=five'' \<noteq> Inr m" by simp
  then have c: "resultAsInt ''result=five'' = Inl (AGICommandFailure (PyInt FAILURE_CODE) ''result=five'')"
    using result_parsers_grammar [of "''result=five''" 0] by blast
  from a b c show ?thesis by blast
qed

text \<open>
  Claim C2 as written fails: a text with a space before \<open>result=\<close> belongs to the
  grammar of the specification, and both parsers answer it with the fault.
\<close>

theorem leading_whitespace_counterexample:
  "spec_result_grammar '' result=5'' \<and>
   resultAsInt '' result=5'' = Inl (AGICommandFailure (PyInt (- 1)) '' result=5'') \<and>
   checkFailure '' result=5'' (PyInt (- 1)) = Inl (AGICommandFailure (PyInt (- 1)) '' result=5'')"
  by code_simp

subsection \<open>The failure sentinel\<close>

text \<open>
  Claim C3, as the code has it. One sentinel is in effect in a call of
  \<open>checkFailure\<close>: the caller's, or \<open>-1\<close> when the caller gives none. For a
  sentinel that is an integer, a result line whose code is that integer raises
  \<open>AGICommandFailure(-1, line)\<close> and a line with any other integer code is returned
  unchanged, also when that code is \<open>-1\<close> and the sentinel is not. A line that does not
  match the result pattern raises the fault under every sentinel.
\<close>

theorem checkFailure_integer_sentinel:
  "(resultAsInt s = Inr n \<longrightarrow>
      checkFailure s (PyInt f) =
        (if n = f then Inl (AGICommandFailure (PyInt FAILURE_CODE) s) else Inr s))
   \<and> (resultAsInt s = Inr n \<longrightarrow>
      checkFailure s default_failure =
        (if n = - 1 then Inl (AGICommandFailure (PyInt FAILURE_CODE) s) else Inr s))
   \<and> (result_re_match s = None \<longrightarrow>
      checkFailure s v = Inl (AGICommandFailure (PyInt FAILURE_CODE) s))"
  unfolding checkFailure_def resultAsInt_def default_failure_def
  by (auto split: option.splits)

theorem checkFailure_integer_sentinel_witness:
  "checkFailure ''result=0'' (PyInt 0) = Inl (AGICommandFailure (PyInt FAILURE_CODE) ''result=0'') \<and>
   checkFailure ''result=-1'' (PyInt 0) = Inr ''result=-1'' \<and>
   checkFailure ''result=-1'' default_failure = Inl (AGICommandFailure (PyInt FAILURE_CODE) ''result=-1'') \<and>
   checkFailure ''200 ok'' (PyStr ''0'') = Inl (AGICommandFailure (PyInt FAILURE_CODE) ''200 ok'')"
proof -
  have a: "resultAsInt ''result=0'' = Inr 0" by code_simp
  have b: "resultAsInt ''result=-1'' = Inr (- 1)" by code_simp
  have c: "result_re_match ''200 ok'' = None" by code_simp
  from a checkFailure_integer_sentinel [of "''result=0''" 0 0]
  have 1: "checkFailure ''result=0'' (PyInt 0) = Inl (AGICommandFailure (PyInt FAILURE_CODE) ''result=0'')"
    by simp
  from b checkFailure_integer_sentinel [of "''result=-1''" "- 1" 0]
  have 2: "checkFailure ''result=-1'' (PyInt 0) = Inr ''result=-1''"
    and 3: "checkFailure ''result=-1'' default_failure = Inl (AGICommandFailure (PyInt FAILURE_CODE) ''result=-1'')"
    by simp_all
  from c checkFailure_integer_sentinel [of "''200 ok''" 0 0 "PyStr ''0''"]
  have 4: "checkFailure ''200 ok'' (PyStr ''0'') = Inl (AGICommandFailure (PyInt FAILURE_CODE) ''200 ok'')"
    by simp
  from 1 2 3 4 show ?thesis by blast
qed

text \<open>
  Claim C3 as written fails: under the sentinel \<open>'0'\<close> that \<open>databaseDel\<close> passes,
  a line whose code is \<open>-1\<close> is returned, not raised.
\<close>

theorem minus_one_under_sentinel_counterexample:
  "checkFailure ''result=-1'' (PyStr ''0'') = Inr ''result=-1'' \<and>
   databaseDel_reply ''result=-1'' = Inr (- 1)"
  by code_simp

subsection \<open>InSequence stops at the first failure\<close>

lemma onActionSuccess_prefix:
  "actions seq = pre @ rest \<Longrightarrow> all_succeed w pre = Some (rs, w1) \<Longrightarrow>
     onActionSuccess seq w = onActionSuccess (seq\<lparr>actions := rest, results := results seq @ rs\<rparr>) w1"
proof (induction pre arbitrary: seq w rs)
  case Nil
  then have "rest = actions seq" and "rs = []" and "w1 = w" by simp_all
  then show ?case by simp
next
  case (Cons f pre)
  obtain o1 w' where fw: "f w = (o1, w')" by (cases "f w")
  with Cons.prems(2) obtain r where o1: "o1 = Inr r" by (cases o1) auto
  from Cons.prems(2) fw o1 obtain rs' where rs: "rs = r # rs'"
    and rest: "all_succeed w' pre = Some (rs', w1)"
    by auto
  let ?seq1 = "recordResult (seq\<lparr>actions := pre @ rest\<rparr>) r"
  have step: "onActionSuccess seq w = onActionSuccess ?seq1 w'"
    using Cons.prems(1) fw o1 by (subst onActionSuccess.simps) simp
  have a1: "actions ?seq1 = pre @ rest" by (simp add: recordResult_def)
  from Cons.IH [OF a1 rest]
  have "onActionSuccess ?seq1 w' =
          onActionSuccess (?seq1\<lparr>actions := rest, results := results ?seq1 @ rs'\<rparr>) w1" .
  with step rs show ?case by (simp add: recordResult_def)
qed

lemma all_succeed_length: "all_succeed w fs = Some (rs, w1) \<Longrightarrow> length rs = length fs"
proof (induction fs arbitrary: w rs)
  case Nil
  then show ?case by simp
next
  case (Cons f fs)
  obtain o1 w' where fw: "f w = (o1, w')" by (cases "f w")
  with Cons.prems obtain r where o1: "o1 = Inr r" by (cases o1) auto
  from Cons.prems fw o1 obtain rs' where "rs = r # rs'" and "all_succeed w' fs = Some (rs', w1)"
    by auto
  with Cons.IH show ?case by auto
qed

text \<open>
  Claim C5. A sequencer that has recorded nothing yet is run over its actions. If the
  actions before some action all succeed and that action fails, the final Deferred
  gets the failure's reason with the results of the actions before it attached, as
  many as there are such actions; the actions after it stay in the list, not taken
  out and not called, and the world is as the failing action left it. If every action
  succeeds, the final Deferred gets the list of all results in order.
\<close>

theorem insequence_outcome:
  "(results seq = [] \<and> actions seq = pre @ a # post \<and> all_succeed w pre = Some (rs, w1) \<and>
      a w1 = (Inl reason, w2)
    \<longrightarrow> doSequence seq w = (FinalErrback reason rs, seq\<lparr>actions := post, results := rs\<rparr>, w2)
        \<and> length rs = length pre)
   \<and> (results seq = [] \<and> all_succeed w (actions seq) = Some (rs, w1)
    \<longrightarrow> doSequence seq w = (FinalCallback rs, seq\<lparr>actions := [], results := rs\<rparr>, w1)
        \<and> length rs = length (actions seq))"
proof (intro conjI impI)
  assume h: "results seq = [] \<and> actions seq = pre @ a # post \<and>
      all_succeed w pre = Some (rs, w1) \<and> a w1 = (Inl reason, w2)"
  let ?seq1 = "seq\<lparr>actions := a # post, results := results seq @ rs\<rparr>"
  from h have "onActionSuccess seq w = onActionSuccess ?seq1 w1"
    using onActionSuccess_prefix [of seq pre "a # post" w rs w1] by simp
  also from h have "\<dots> = (FinalErrback reason rs, seq\<lparr>actions := post, results := rs\<rparr>, w2)"
    by (subst onActionSuccess.simps) (simp add: onActionFailure_def)
  finally show "doSequence seq w =
      (FinalErrback reason rs, seq\<lparr>actions := post, results := rs\<rparr>, w2)"
    by (simp add: doSequence_def)
  from h have "all_succeed w pre = Some (rs, w1)" by simp
  then show "length rs = length pre" by (rule all_succeed_length)
next
  assume h: "results seq = [] \<and> all_succeed w (actions seq) = Some (rs, w1)"
  let ?seq1 = "seq\<lparr>actions := [], results := results seq @ rs\<rparr>"
  from h have "onActionSuccess seq w = onActionSuccess ?seq1 w1"
    using onActionSuccess_prefix [of seq "actions seq" "[]" w rs w1] by simp
  also from h have "\<dots> = (FinalCallback rs, seq\<lparr>actions := [], results := rs\<rparr>, w1)"
    by (subst onActionSuccess.simps) simp
  finally show "doSequence seq w =
      (FinalCallback rs, seq\<lparr>actions := [], results := rs\<rparr>, w1)"
    by (simp add: doSequence_def)
  from h have "all_succeed w (actions seq) = Some (rs, w1)" by simp
  then show "length rs = length (actions seq)" by (rule all_succeed_length)
qed

theorem insequence_outcome_witness:
  "doSequence \<lparr>actions = [act_ok ''1'', act_fail ''2'', act_ok ''3''], results = []\<rparr> []
     = (FinalErrback ''e-2'' [''r-1''], \<lparr>actions = [act_ok ''3''], results = [''r-1'']\<rparr>, [''1'', ''2''])
   \<and> doSequence \<lparr>actions = [act_ok ''1'', act_ok ''2''], results = []\<rparr> []
     = (FinalCallback [''r-1'', ''r-2''], \<lparr>actions = [], results = [''r-1'', ''r-2'']\<rparr>, [''1'', ''2''])"
proof -
  let ?seq = "\<lparr>actions = [act_ok ''1'', act_fail ''2'', act_ok ''3''], results = ([]::string list)\<rparr>"
  have "results ?seq = [] \<and> actions ?seq = [act_ok ''1''] @ act_fail ''2'' # [act_ok ''3''] \<and>
        all_succeed [] [act_ok ''1''] = Some ([''r-1''], [''1'']) \<and>
        act_fail ''2'' [''1''] = (Inl ''e-2'', [''1'', ''2''])"
    by (simp add: act_ok_def act_fail_def)
  then have a: "doSequence ?seq [] =
      (FinalErrback ''e-2'' [''r-1''], ?seq\<lparr>actions := [act_ok ''3''], results := [''r-1'']\<rparr>, [''1'', ''2''])"
    using insequence_outcome [of ?seq "[act_ok ''1'']" "act_fail ''2''" "[act_ok ''3'']" "[]"
        "[''r-1'']" "[''1'']" "''e-2''" "[''1'', ''2'']"]
    by blast
  let ?seq2 = "\<lparr>actions = [act_ok ''1'', act_ok ''2''], results = ([]::string list)\<rparr>"
  have "results ?seq2 = [] \<and>
        all_succeed [] (actions ?seq2) = Some ([''r-1'', ''r-2''], [''1'', ''2''])"
    by (simp add: act_ok_def)
  then have b: "doSequence ?seq2 [] =
      (FinalCallback [''r-1'', ''r-2''], ?seq2\<lparr>actions := [], results := [''r-1'', ''r-2'']\<rparr>, [''1'', ''2''])"
    using insequence_outcome [of ?seq2 "[]" "act_ok ''1''" "[]" "[]"
        "[''r-1'', ''r-2'']" "[''1'', ''2'']" "''e''" "[]"]
    by blast
  from a b show ?thesis by simp
qed

subsection \<open>Decimal numerals\<close>

text \<open>
  \<open>int(str(i)) == i\<close> for every integer, and with it \<open>str\<close> gives different
  numbers different numerals.
\<close>

lemma digit_char_props:
  assumes "n < 10"
  shows "isdigit (char_of (48 + n))" and "digit_value (char_of (48 + n)) = n"
    and "\<not> int_space (char_of (48 + n))"
    and "char_of (48 + n) \<noteq> CHR ''-''" and "char_of (48 + n) \<noteq> CHR ''+''"
proof -
  from assms have m: "(48 + n) mod 256 = 48 + n" by simp
  have v: "(of_char (char_of (48 + n)) :: nat) = 48 + n" using m by simp
  show "isdigit (char_of (48 + n))" using assms v by (simp add: isdigit_def)
  show "digit_value (char_of (48 + n)) = n" using v by (simp add: digit_value_def)
  show "\<not> int_space (char_of (48 + n))" using assms v by (simp add: int_space_def)
  show "char_of (48 + n) \<noteq> CHR ''-''"
  proof
    assume "char_of (48 + n) = CHR ''-''"
    then have "(of_char (char_of (48 + n)) :: nat) = of_char (CHR ''-'')" by simp
    with v show False by simp
  qed
  show "char_of (48 + n) \<noteq> CHR ''+''"
  proof
    assume "char_of (48 + n) = CHR ''+''"
    then have "(of_char (char_of (48 + n)) :: nat) = of_char (CHR ''+'')" by simp
    with v show False by simp
  qed
qed



lemma str_nat_value: "foldl (\<lambda>a c. 10 * a + digit_value c) 0 (str_nat n) = n"
proof (induction n rule: str_nat.induct)
  case (1 n)
  show ?case
  proof (cases "n < 10")
    case True
    then show ?thesis by (subst str_nat.simps) (simp add: digit_char_props)
  next
    case False
    with 1 have "foldl (\<lambda>a c. 10 * a + digit_value c) 0 (str_nat (n div 10)) = n div 10" by simp
    moreover have "digit_value (char_of (48 + n mod 10)) = n mod 10"
      by (rule digit_char_props) simp
    ultimately show ?thesis using False by (subst str_nat.simps) simp
  qed
qed






lemma str_nat_inj:
  assumes "str_nat m = str_nat n"
  shows "m = n"
proof -
  have "m = foldl (\<lambda>a c. 10 * a + digit_value c) 0 (str_nat m)" by (simp only: str_nat_value)
  also have "\<dots> = foldl (\<lambda>a c. 10 * a + digit_value c) 0 (str_nat n)" by (simp only: assms)
  also have "\<dots> = n" by (rule str_nat_value)
  finally show ?thesis .
qed

subsection \<open>Seconds and milliseconds\<close>



lemma getData_two_seconds:
  "sent_lines (snd (getData (FastAGIProtocol False) ''beep'' 2 None))
     = [''GET DATA '' @ quoted ''beep'' @ '' 2000'']"
  by code_simp

subsection \<open>Correlation tokens\<close>

lemma generateActionIds_tokens:
  "fst (generateActionIds s n) = map (\<lambda>k. ami_id s @ ''-'' @ str_nat (count s + Suc k)) [0..<n]
   \<and> count (snd (generateActionIds s n)) = count s + n
   \<and> ami_id (snd (generateActionIds s n)) = ami_id s"
proof (induction n arbitrary: s)
  case 0
  then show ?case by simp
next
  case (Suc n)
  let ?s1 = "s\<lparr>count := count s + 1\<rparr>"
  have g: "generateActionId s = (ami_id s @ ''-'' @ str_nat (count s + 1), ?s1)"
    by (simp add: generateActionId_def Let_def)
  obtain as s2 where r: "generateActionIds ?s1 n = (as, s2)" by (cases "generateActionIds ?s1 n")
  from Suc.IH [of ?s1] r
  have as: "as = map (\<lambda>k. ami_id s @ ''-'' @ str_nat (count s + 1 + Suc k)) [0..<n]"
    and c: "count s2 = count s + 1 + n" and i: "ami_id s2 = ami_id s"
    by simp_all
  have "map (\<lambda>k. ami_id s @ ''-'' @ str_nat (count s + 1 + Suc k)) [0..<n]
        = map (\<lambda>k. ami_id s @ ''-'' @ str_nat (count s + Suc k)) (map Suc [0..<n])"
    by simp
  then have as': "as = map (\<lambda>k. ami_id s @ ''-'' @ str_nat (count s + Suc k)) (map Suc [0..<n])"
    using as by simp
  have "[0..<Suc n] = 0 # map Suc [0..<n]"
    by (simp only: map_Suc_upt upt_conv_Cons [of 0 "Suc n"] zero_less_Suc)
  then have "map (\<lambda>k. ami_id s @ ''-'' @ str_nat (count s + Suc k)) [0..<Suc n]
     = (ami_id s @ ''-'' @ str_nat (count s + 1)) # as"
    using as' by simp
  then have "fst (generateActionIds s (Suc n)) =
     map (\<lambda>k. ami_id s @ ''-'' @ str_nat (count s + Suc k)) [0..<Suc n]"
    using g r by simp
  moreover have "count (snd (generateActionIds s (Suc n))) = count s + Suc n"
    using g r c by simp
  moreover have "ami_id (snd (generateActionIds s (Suc n))) = ami_id s"
    using g r i by simp
  ultimately show ?case by blast
qed

lemma tokens_distinct: "distinct (map (\<lambda>k. u @ ''-'' @ str_nat (c + Suc k)) [0..<n])"
proof -
  have "inj (\<lambda>k. u @ ''-'' @ str_nat (c + Suc k))"
  proof (rule injI)
    fix x y assume "u @ ''-'' @ str_nat (c + Suc x) = u @ ''-'' @ str_nat (c + Suc y)"
    then have "str_nat (c + Suc x) = str_nat (c + Suc y)" by simp
    then have "c + Suc x = c + Suc y" by (rule str_nat_inj)
    then show "x = y" by simp
  qed
  then have "inj_on (\<lambda>k. u @ ''-'' @ str_nat (c + Suc k)) (set [0..<n])"
    by (rule inj_on_subset) simp
  then show ?thesis by (simp add: distinct_map)
qed

lemma list_actionid_absent:
  "\<forall>hv \<in> set items. lower (fst hv) \<noteq> ''actionid'' \<Longrightarrow>
     foldl (\<lambda>found (header, val). if lower header = ''actionid'' then val else found) v items = v"
  by (induction items arbitrary: v) (auto simp: case_prod_beta)

lemma sendMessage_list_generates:
  assumes "heap s m = PyList items" and "list_actionid items = PyNone"
  shows "fst (sendMessage s m cb) = PyStr (fst (generateActionId s))"
    and "count (snd (sendMessage s m cb)) = count s + 1"
    and "heap (snd (sendMessage s m cb)) =
           (heap s)(m := PyList (items @ [(''actionid'', PyStr (fst (generateActionId s)))]))"
  using assms
  by (simp_all add: sendMessage_def generateActionId_def Let_def send_lines_def split: option.split)

lemma sendMessage_dict_heap:
  assumes "heap s m = PyDict items"
  shows "heap (snd (sendMessage s m cb)) = heap s"
  using assms
  by (simp add: sendMessage_def generateActionId_def Let_def send_lines_def
      split: option.split prod.split)

lemma sendMessage_dict_generates:
  assumes "heap s m = PyDict items" and "dict_get (lower_keys items) ''actionid'' = None"
  shows "fst (sendMessage s m cb) = PyStr (fst (generateActionId s))"
    and "count (snd (sendMessage s m cb)) = count s + 1"
  using assms
  by (simp_all add: sendMessage_def generateActionId_def Let_def send_lines_def split: option.split)

lemma sendMessage_supplied:
  "heap s m = PyList items \<Longrightarrow> list_actionid items \<noteq> PyNone \<Longrightarrow>
     fst (sendMessage s m cb) = list_actionid items \<and> count (snd (sendMessage s m cb)) = count s
       \<and> heap (snd (sendMessage s m cb)) = heap s"
  "heap s m = PyDict items \<Longrightarrow> dict_get (lower_keys items) ''actionid'' = Some v \<Longrightarrow>
     fst (sendMessage s m cb) = v \<and> count (snd (sendMessage s m cb)) = count s"
  by (simp_all add: sendMessage_def generateActionId_def Let_def send_lines_def split: option.split)

lemma token_format: "fst (generateActionId s) = ami_id s @ ''-'' @ str_nat (count s + 1)"
  by (simp add: generateActionId_def Let_def)

lemma sendMessages_dicts:
  "\<forall>m \<in> set ms. \<exists>items. heap s (fst m) = PyDict items \<and>
        dict_get (lower_keys items) ''actionid'' = None \<Longrightarrow>
     fst (sendMessages s ms) =
       map (\<lambda>k. PyStr (ami_id s @ ''-'' @ str_nat (count s + Suc k))) [0..<length ms]"
proof (induction ms arbitrary: s)
  case Nil
  then show ?case by simp
next
  case (Cons mc ms)
  obtain m cb where mc: "mc = (m, cb)" by (cases mc)
  from Cons.prems mc obtain items where h: "heap s m = PyDict items"
    and none: "dict_get (lower_keys items) ''actionid'' = None" by auto
  obtain a s1 where sm: "sendMessage s m cb = (a, s1)" by (cases "sendMessage s m cb")
  from sendMessage_dict_generates [OF h none, of cb] sm token_format [of s]
  have a: "a = PyStr (ami_id s @ ''-'' @ str_nat (count s + 1))" and c1: "count s1 = count s + 1"
    by simp_all
  from sendMessage_dict_heap [OF h, of cb] sm have h1: "heap s1 = heap s" by simp
  have i1: "ami_id s1 = ami_id s"
    using sm h by (auto simp: sendMessage_def generateActionId_def Let_def send_lines_def
        split: option.splits prod.splits)
  have "\<forall>m \<in> set ms. \<exists>items. heap s1 (fst m) = PyDict items \<and>
        dict_get (lower_keys items) ''actionid'' = None"
    using Cons.prems h1 by simp
  from Cons.IH [OF this] c1 i1
  have rest: "fst (sendMessages s1 ms) =
       map (\<lambda>k. PyStr (ami_id s @ ''-'' @ str_nat (count s + Suc (Suc k)))) [0..<length ms]"
    by simp
  have "[0..<Suc (length ms)] = 0 # [Suc 0..<Suc (length ms)]" by (rule upt_conv_Cons) simp
  also have "[Suc 0..<Suc (length ms)] = map Suc [0..<length ms]" by (rule map_Suc_upt [symmetric])
  finally have up: "[0..<length (mc # ms)] = 0 # map Suc [0..<length ms]" by simp
  obtain as s2 where r: "sendMessages s1 ms = (as, s2)" by (cases "sendMessages s1 ms")
  have "fst (sendMessages s (mc # ms)) = a # as" using mc sm r by simp
  also have "\<dots> = map (\<lambda>k. PyStr (ami_id s @ ''-'' @ str_nat (count s + Suc k))) (0 # map Suc [0..<length ms])"
    using a rest r by simp
  finally show ?case by (simp only: up)
qed

lemma pystr_tokens_distinct:
  "distinct (map (\<lambda>k. PyStr (u @ ''-'' @ str_nat (c + Suc k))) [0..<n])"
proof -
  have "distinct (map PyStr (map (\<lambda>k. u @ ''-'' @ str_nat (c + Suc k)) [0..<n]))"
    using tokens_distinct [of u c n] by (simp only: distinct_map [of PyStr]) (simp add: inj_on_def)
  then show ?thesis by (simp add: comp_def)
qed

text \<open>
  Claim C8. The counter of a new connection is 0. A message sent without a token of
  the caller gets the token made of the connection's identifier, a hyphen and the
  counter, which that send has just raised by one. So the tokens generated one after
  another are the identifier with the numbers that follow the counter's value, and no
  two are the same; this is shown for successive calls of \<open>generateActionId\<close> and
  for successive sends of dict messages that bring no token.
\<close>

theorem correlation_tokens:
  "count (AMIProtocol uuid h) = 0
   \<and> ((heap s m = PyList items \<and> list_actionid items = PyNone) \<or>
       (heap s m = PyDict items \<and> dict_get (lower_keys items) ''actionid'' = None)
      \<longrightarrow> fst (sendMessage s m cb) = PyStr (ami_id s @ ''-'' @ str_nat (count s + 1))
          \<and> count (snd (sendMessage s m cb)) = count s + 1)
   \<and> fst (generateActionIds s n) = map (\<lambda>k. ami_id s @ ''-'' @ str_nat (count s + Suc k)) [0..<n]
   \<and> distinct (fst (generateActionIds s n))
   \<and> ((\<forall>m \<in> set ms. \<exists>items. heap s (fst m) = PyDict items \<and>
                      dict_get (lower_keys items) ''actionid'' = None)
      \<longrightarrow> fst (sendMessages s ms) =
            map (\<lambda>k. PyStr (ami_id s @ ''-'' @ str_nat (count s + Suc k))) [0..<length ms]
          \<and> distinct (fst (sendMessages s ms)))"
proof (intro conjI impI)
  show "count (AMIProtocol uuid h) = 0" by (simp add: AMIProtocol_def)
next
  assume c: "(heap s m = PyList items \<and> list_actionid items = PyNone) \<or>
       (heap s m = PyDict items \<and> dict_get (lower_keys items) ''actionid'' = None)"
  then show "fst (sendMessage s m cb) = PyStr (ami_id s @ ''-'' @ str_nat (count s + 1))"
    using sendMessage_list_generates(1) [of s m items cb]
      sendMessage_dict_generates(1) [of s m items cb] token_format [of s] by auto
  from c show "count (snd (sendMessage s m cb)) = count s + 1"
    using sendMessage_list_generates(2) [of s m items cb]
      sendMessage_dict_generates(2) [of s m items cb] by auto
next
  show t: "fst (generateActionIds s n) =
      map (\<lambda>k. ami_id s @ ''-'' @ str_nat (count s + Suc k)) [0..<n]"
    using generateActionIds_tokens by blast
  show "distinct (fst (generateActionIds s n))"
    by (simp only: t tokens_distinct)
next
  assume d: "\<forall>m \<in> set ms. \<exists>items. heap s (fst m) = PyDict items \<and>
                      dict_get (lower_keys items) ''actionid'' = None"
  then show e: "fst (sendMessages s ms) =
            map (\<lambda>k. PyStr (ami_id s @ ''-'' @ str_nat (count s + Suc k))) [0..<length ms]"
    by (rule sendMessages_dicts)
  show "distinct (fst (sendMessages s ms))"
    by (simp only: e pystr_tokens_distinct)
qed

theorem correlation_tokens_witness:
  "fst (sendMessage (AMIProtocol ''u'' ping_heap) 0 None) = PyStr ''u-1''
   \<and> fst (sendMessages (AMIProtocol ''u'' ping_heap) [(1, None), (2, None), (1, None)])
       = [PyStr ''u-1'', PyStr ''u-2'', PyStr ''u-3'']
   \<and> distinct (fst (sendMessages (AMIProtocol ''u'' ping_heap) [(1, None), (2, None), (1, None)]))"
proof -
  let ?s = "AMIProtocol ''u'' ping_heap"
  have a: "heap ?s 0 = PyList [(''Action'', PyStr ''Ping'')] \<and>
           list_actionid [(''Action'', PyStr ''Ping'')] = PyNone"
    by code_simp
  have b: "\<forall>m \<in> set [(1, None), (2, None), (1::nat, None::callable option)].
        \<exists>items. heap ?s (fst m) = PyDict items \<and> dict_get (lower_keys items) ''actionid'' = None"
  proof -
    have "heap ?s 1 = PyDict [(''Action'', PyStr ''Ping'')]"
      and "heap ?s 2 = PyDict [(''Action'', PyStr ''Ping'')]"
      and "dict_get (lower_keys [(''Action'', PyStr ''Ping'')]) ''actionid'' = None"
      by code_simp+
    then show ?thesis by simp
  qed
  have c: "ami_id ?s = ''u''" "count ?s = 0" by (simp_all add: AMIProtocol_def)
  have n: "str_nat 1 = ''1''" "str_nat 2 = ''2''" "str_nat 3 = ''3''" by code_simp+
  note t = correlation_tokens [of "''u''" ping_heap ?s 0 "[(''Action'', PyStr ''Ping'')]" None 0
      "[(1, None), (2, None), (1, None)]"]
  from t a c n have 1: "fst (sendMessage ?s 0 None) = PyStr ''u-1''" by simp
  from t b have 2: "fst (sendMessages ?s [(1, None), (2, None), (1, None)]) =
            map (\<lambda>k. PyStr (ami_id ?s @ ''-'' @ str_nat (count ?s + Suc k)))
              [0..<length [(1, None), (2, None), (1::nat, None::callable option)]]"
    and 3: "distinct (fst (sendMessages ?s [(1, None), (2, None), (1, None)]))"
    by blast+
  have "[0..<length [(1, None), (2, None), (1::nat, None::callable option)]] = [0, 1, 2]"
    by (simp add: upt_rec)
  with 2 c n have 4: "fst (sendMessages ?s [(1, None), (2, None), (1, None)])
       = [PyStr ''u-1'', PyStr ''u-2'', PyStr ''u-3'']"
    by (simp add: numeral_2_eq_2 numeral_3_eq_3)
  from 1 3 4 show ?thesis by blast
qed

subsection \<open>What sendMessage does to its argument\<close>

text \<open>
  Claim C10. Given a list without an \<open>actionid\<close> header, \<open>sendMessage\<close> leaves
  the caller's list object with the pair of \<open>actionid\<close> and the generated token
  appended, and every other object as it was. Given a dict, it leaves every object of
  the caller as it was: the lines sent are those of the copy with lowered keys, to
  which the token was added.
\<close>

theorem sendMessage_argument:
  "(heap s m = PyList items \<and> (\<forall>hv \<in> set items. lower (fst hv) \<noteq> ''actionid'')
      \<longrightarrow> heap (snd (sendMessage s m cb)) =
            (heap s)(m := PyList (items @ [(''actionid'', fst (sendMessage s m cb))]))
          \<and> fst (sendMessage s m cb) = PyStr (ami_id s @ ''-'' @ str_nat (count s + 1)))
   \<and> (heap s m = PyDict items \<longrightarrow> heap (snd (sendMessage s m cb)) = heap s)
   \<and> (heap s m = PyDict items \<and> dict_get (lower_keys items) ''actionid'' = None
      \<longrightarrow> ami_sent (snd (sendMessage s m cb)) =
            ami_sent s @
            map (\<lambda>(key, val). lower key @ '': '' @ py_str val)
              (dict_set (lower_keys items) ''actionid'' (fst (sendMessage s m cb))) @ [[]])"
proof (intro conjI impI)
  assume a: "heap s m = PyList items \<and> (\<forall>hv \<in> set items. lower (fst hv) \<noteq> ''actionid'')"
  then have h: "heap s m = PyList items" and n: "list_actionid items = PyNone"
    by (simp_all add: list_actionid_def list_actionid_absent)
  from sendMessage_list_generates [OF h n, of cb]
  show "heap (snd (sendMessage s m cb)) =
            (heap s)(m := PyList (items @ [(''actionid'', fst (sendMessage s m cb))]))"
    by simp
  from sendMessage_list_generates(1) [OF h n, of cb] token_format [of s]
  show "fst (sendMessage s m cb) = PyStr (ami_id s @ ''-'' @ str_nat (count s + 1))" by simp
next
  assume "heap s m = PyDict items"
  then show "heap (snd (sendMessage s m cb)) = heap s" by (rule sendMessage_dict_heap)
next
  assume "heap s m = PyDict items \<and> dict_get (lower_keys items) ''actionid'' = None"
  then show "ami_sent (snd (sendMessage s m cb)) =
            ami_sent s @
            map (\<lambda>(key, val). lower key @ '': '' @ py_str val)
              (dict_set (lower_keys items) ''actionid'' (fst (sendMessage s m cb))) @ [[]]"
    by (simp add: sendMessage_def generateActionId_def Let_def send_lines_def split: option.split)
qed

theorem sendMessage_argument_witness:
  "heap (snd (sendMessage (AMIProtocol ''u'' ping_heap) 0 None)) 0
     = PyList [(''Action'', PyStr ''Ping''), (''actionid'', PyStr ''u-1'')]
   \<and> heap (snd (sendMessage (AMIProtocol ''u'' ping_heap) 1 None)) 1
     = PyDict [(''Action'', PyStr ''Ping'')]
   \<and> ami_sent (snd (sendMessage (AMIProtocol ''u'' ping_heap) 1 None))
     = [''action: Ping'', ''actionid: u-1'', []]"
proof -
  let ?s = "AMIProtocol ''u'' ping_heap"
  have a: "heap ?s 0 = PyList [(''Action'', PyStr ''Ping'')] \<and>
           (\<forall>hv \<in> set [(''Action'', PyStr ''Ping'')]. lower (fst hv) \<noteq> ''actionid'')"
    by code_simp
  have b: "heap ?s 1 = PyDict [(''Action'', PyStr ''Ping'')] \<and>
           dict_get (lower_keys [(''Action'', PyStr ''Ping'')]) ''actionid'' = None"
    by code_simp
  have c: "ami_id ?s = ''u''" "count ?s = 0" "ami_sent ?s = []" by (simp_all add: AMIProtocol_def)
  have n: "str_nat 1 = ''1''" by code_simp
  have l: "lower_keys [(''Action'', PyStr ''Ping'')] = [(''action'', PyStr ''Ping'')]" by code_simp
  from sendMessage_argument [of ?s 0 "[(''Action'', PyStr ''Ping'')]" None] a c n
  have 1: "heap (snd (sendMessage ?s 0 None)) 0
     = PyList [(''Action'', PyStr ''Ping''), (''actionid'', PyStr ''u-1'')]" by simp
  from sendMessage_argument [of ?s 1 "[(''Action'', PyStr ''Ping'')]" None] b
  have 2: "heap (snd (sendMessage ?s 1 None)) = heap ?s"
    and 3: "ami_sent (snd (sendMessage ?s 1 None)) =
            ami_sent ?s @
            map (\<lambda>(key, val). lower key @ '': '' @ py_str val)
              (dict_set (lower_keys [(''Action'', PyStr ''Ping'')]) ''actionid''
                 (fst (sendMessage ?s 1 None))) @ [[]]"
    by blast+
  have t: "fst (sendMessage ?s 1 None) = PyStr ''u-1''" by code_simp
  have e: "[] @ map (\<lambda>(key, val). lower key @ '': '' @ py_str val)
              (dict_set [(''action'', PyStr ''Ping'')] ''actionid'' (PyStr ''u-1'')) @ [[]]
           = [''action: Ping'', ''actionid: u-1'', []]" by code_simp
  from 3 have 4: "ami_sent (snd (sendMessage ?s 1 None)) = [''action: Ping'', ''actionid: u-1'', []]"
    by (simp only: t l c e)
  from 1 2 4 b show ?thesis by simp
qed

subsection \<open>Order of event dispatch\<close>











subsection \<open>A response and the request it belongs to\<close>










subsection \<open>Loss of the connection\<close>

text \<open>
  On the FastAGI side \<open>connectionLost\<close> gives every pending Deferred the
  \<open>ConnectionDone\<close> failure, once and in the order of the queue, then the Deferred
  of \<open>onClose\<close> if there is one, and empties the queue.
\<close>

lemma errback_all:
  "foldl (\<lambda>t df. errback t df e) s dfs = s\<lparr>fired := fired s @ map (\<lambda>df. (df, Errback e)) dfs\<rparr>"
  by (induction dfs arbitrary: s) (simp_all add: errback_def)

lemma connectionLost_fifo:
  "fired (connectionLost s reason) =
     fired s @
     map (\<lambda>df. (df, Errback (ConnectionDone ''FastAGI connection lost''))) (pendingMessages s) @
     (case lostConnectionDeferred s of None \<Rightarrow> [] | Some d \<Rightarrow> [(d, Errback reason)])
   \<and> pendingMessages (connectionLost s reason) = []"
  unfolding connectionLost_def Let_def errback_all
  by (simp add: errback_def split: option.split)

text \<open>
  Claim C4 asks the same of the manager side: every function waiting in
  \<open>actionIDCallbacks\<close> resolves its request with the connection-closed fault, and
  the map is cleared. The code does not do so for a request made with
  \<open>collectDeferred\<close>. Here one such request is pending when the connection is lost:
  its function \<open>onEvent\<close> is called with the \<open>ConnectionDone\<close> object, raises
  \<open>AttributeError\<close>, which \<open>connectionLost\<close> logs; the map is cleared, and the
  Deferred of the request has not been fired and never will be.
\<close>

theorem collect_request_left_unresolved:
  "(let s = AMIProtocol ''u'' ping_heap;
        (df, t) = collectDeferred s 1 ''StatusComplete'';
        (err, u) = ami_connectionLost t
    in actionIDCallbacks t = [(PyStr ''u-1'', OnEvent df ''StatusComplete'')]
       \<and> called (deferreds t df) = None
       \<and> err = None
       \<and> actionIDCallbacks u = []
       \<and> ami_logged u = [''Failure during connectionLost for callable'']
       \<and> called (deferreds u df) = None)"
  by code_simp

text \<open>
  A request made with \<open>sendDeferred\<close> is resolved, with the \<open>ConnectionDone\<close>
  object as a result, and its callback \<open>cleanup\<close> takes its entry out of the map
  while \<open>connectionLost\<close> iterates over it. The next step of the iteration raises
  \<open>RuntimeError\<close>: a second pending request is not reached, and the handlers for
  events are not cleared.
\<close>

lemma deferred_request_ends_the_loop:
  "(let s = registerEvent (AMIProtocol ''u'' ping_heap) (OneEvent None) (Handler 7 False);
        (df1, t1) = sendDeferred s 1;
        (df2, t2) = sendDeferred t1 2;
        (err, u) = ami_connectionLost t2
    in map fst (actionIDCallbacks t2) = [PyStr ''u-1'', PyStr ''u-2'']
       \<and> err = Some RuntimeError
       \<and> called (deferreds u df1)
            = Some (FireCallback (ConnectionDoneObject ''Manager connection terminated''))
       \<and> called (deferreds u df2) = None
       \<and> map fst (actionIDCallbacks u) = [PyStr ''u-2'']
       \<and> eventTypeCallbacks u \<noteq> [])"
  by code_simp

end
